theory Spec2Isabelle
  imports Complex_Main
begin

section \<open>Data model of ton-access-mcp.ts\<close>

text \<open>
  The string-literal unions of the source are datatypes; \<open>networkString\<close> gives the
  string a \<open>Network\<close> value is at run time, which is what the template literals print.
\<close>

datatype Network = Mainnet | Testnet

datatype EdgeProtocol = ToncenterApiV2 | TonApiV4 | AdnlProxy

datatype ProtocolFormat = Default | JsonRpc | Rest

definition networkString :: "Network \<Rightarrow> string" where
  "networkString n = (case n of Mainnet \<Rightarrow> ''mainnet'' | Testnet \<Rightarrow> ''testnet'')"

text \<open>
  A JavaScript \<open>number\<close> is a double. The source does two things with one: it tests
  whether it is falsy (\<open>v || 1\<close>) and it prints it in a template literal (\<open>${v}\<close>). The
  model has the three kinds of value these two operations tell apart:
  \<^item> a safe integer, \<open>-2^53 < n < 2^53\<close>, which every double in that range with no
    fraction is, and which is printed as its decimal digits (\<open>-0\<close> is the integer 0: it
    is falsy and prints \<open>0\<close>);
  \<^item> \<open>NaN\<close>, which is falsy;
  \<^item> any other number (a fraction, an integer from \<open>2^53\<close> on, an infinity), which is
    truthy and is carried with the string JavaScript prints for it, for instance
    \<open>1.5\<close>, \<open>36028797018963970\<close> for \<open>2^55\<close>, \<open>1e+21\<close>, \<open>Infinity\<close>.
\<close>

typedef safeInteger = "{n :: int. - (2 ^ 53) < n \<and> n < 2 ^ 53}"
  by (rule exI[of _ 0]) simp

datatype number = SafeInteger safeInteger | NaN | OtherNumber string

text \<open>
  \<open>interface TonAccessConfig\<close>: every field is optional (\<open>field?: T\<close>), so every field is an
  \<open>option\<close>.
\<close>

record TonAccessConfig =
  network :: "Network option"
  host :: "string option"
  accessVersion :: "number option"
  protocol :: "ProtocolFormat option"

text \<open>
  \<open>interface TonAccessNode\<close> and its nested \<open>Mngr\<close> object. The field \<open>text\<close> of the source is
  \<open>statusText\<close> here (\<open>text\<close> is a keyword of the theory language), \<open>health\<close> is the
  \<open>Record<string, boolean>\<close> as a map.
\<close>

record Mngr =
  updated :: string
  health :: "string \<rightharpoonup> bool"
  successTS :: int
  errors :: "string list"
  code :: int
  statusText :: string

record TonAccessNode =
  NodeId :: string
  BackendName :: string
  Ip :: string
  Weight :: real
  Healthy :: string
  Mngr :: Mngr

text \<open>
  \<open>throw new Error(message)\<close> inside an \<open>async\<close> function rejects the returned promise with
  that error: the operations return \<open>error + 'a\<close>, \<open>Inl\<close> for the rejection.
\<close>

datatype error = Error string

text \<open>
  The two error messages the repository names: the one \<open>getHttpV4Endpoint\<close> and
  \<open>getHttpV4Endpoints\<close> throw (the specification's \<open>UnsupportedProtocolError\<close>), and the one
  its documents give for stale manager data (the specification's \<open>AllNodesStaleError\<close>),
  which no function of the source throws.
\<close>

definition UnsupportedProtocolError :: error where
  "UnsupportedProtocolError =
     Error ''config.protocol json-rpc is not supported for getTonApiV4Endpoints''"

definition AllNodesStaleError :: error where
  "AllNodesStaleError = Error ''all nodes manager's data are stale''"

section \<open>The JavaScript operators the source uses\<close>

text \<open>
  \<open>config?.f\<close>: \<open>undefined\<close> when \<open>config\<close> is omitted, the field otherwise.
\<close>

definition optField :: "'r option \<Rightarrow> ('r \<Rightarrow> 'a option) \<Rightarrow> 'a option" where
  "optField config f = (case config of None \<Rightarrow> None | Some c \<Rightarrow> f c)"

text \<open>
  \<open>v || d\<close> takes \<open>d\<close> when \<open>v\<close> is falsy: \<open>undefined\<close> and the empty string for a string,
  \<open>undefined\<close>, \<open>0\<close> and \<open>NaN\<close> for a number.
\<close>

fun falsy :: "number \<Rightarrow> bool" where
  "falsy (SafeInteger i) = (Rep_safeInteger i = 0)"
| "falsy NaN = True"
| "falsy (OtherNumber s) = False"

definition orString :: "string option \<Rightarrow> string \<Rightarrow> string" where
  "orString v d = (case v of None \<Rightarrow> d | Some s \<Rightarrow> if s = [] then d else s)"

definition orNumber :: "number option \<Rightarrow> number \<Rightarrow> number" where
  "orNumber v d = (case v of None \<Rightarrow> d | Some n \<Rightarrow> if falsy n then d else n)"

text \<open>
  The numeric literal \<open>1\<close> of the source.
\<close>

definition literalOne :: number where
  "literalOne = SafeInteger (Abs_safeInteger 1)"

text \<open>
  \<open>if (single)\<close> on the optional boolean parameter: only \<open>true\<close> is truthy.
\<close>

definition truthy :: "bool option \<Rightarrow> bool" where
  "truthy single = (single = Some True)"

text \<open>
  \<open>${version}\<close> in a template literal. A safe integer is printed as its decimal digits,
  after a minus sign when it is negative; \<open>intToString\<close> is applied to safe integers only
  (from \<open>2^53\<close> on JavaScript prints the shortest digits that identify the double, which
  are not the digits of the integer). Any other number is printed as the string it is
  carried with.
\<close>

fun digitsToString :: "nat \<Rightarrow> string" where
  "digitsToString n =
     (if n < 10 then [''0123456789'' ! n]
      else digitsToString (n div 10) @ [''0123456789'' ! (n mod 10)])"

declare digitsToString.simps [simp del]

definition intToString :: "int \<Rightarrow> string" where
  "intToString v =
     (if v < 0 then ''-'' @ digitsToString (nat (- v)) else digitsToString (nat v))"

fun numberToString :: "number \<Rightarrow> string" where
  "numberToString (SafeInteger i) = intToString (Rep_safeInteger i)"
| "numberToString NaN = ''NaN''"
| "numberToString (OtherNumber s) = s"

section \<open>The methods of class TonAccessMCP\<close>

text \<open>
  The class has no field and its methods read no clock, no random source and no network:
  each method is a function of its arguments. The exported standalone functions create an
  instance and call the method of the same name, so the definitions below are theirs too.
\<close>

definition getHttpEndpoint :: "TonAccessConfig option \<Rightarrow> error + string" where
  "getHttpEndpoint config =
     (let network = orString (map_option networkString (optField config network)) ''mainnet'';
          protocol = (if optField config protocol = Some Rest then [] else ''jsonRPC'');
          host = orString (optField config host) ''ton.access.orbs.network'';
          version = orNumber (optField config accessVersion) literalOne
      in Inr (''https://'' @ host @ ''/[node-id]/'' @ numberToString version @ ''/'' @ network
              @ ''/toncenter-api-v2/'' @ protocol))"

definition getHttpEndpoints :: "TonAccessConfig option \<Rightarrow> bool option \<Rightarrow> error + string list" where
  "getHttpEndpoints config single =
     (if truthy single then
        (case getHttpEndpoint config of
           Inl e \<Rightarrow> Inl e
         | Inr endpoint \<Rightarrow> Inr [endpoint])
      else
        (let network = orString (map_option networkString (optField config network)) ''mainnet'';
             protocol = (if optField config protocol = Some Rest then [] else ''jsonRPC'');
             host = orString (optField config host) ''ton.access.orbs.network'';
             version = orNumber (optField config accessVersion) literalOne
         in Inr
           [''https://'' @ host @ ''/node1/'' @ numberToString version @ ''/'' @ network
              @ ''/toncenter-api-v2/'' @ protocol,
            ''https://'' @ host @ ''/node2/'' @ numberToString version @ ''/'' @ network
              @ ''/toncenter-api-v2/'' @ protocol,
            ''https://'' @ host @ ''/node3/'' @ numberToString version @ ''/'' @ network
              @ ''/toncenter-api-v2/'' @ protocol]))"

definition getHttpV4Endpoint :: "TonAccessConfig option \<Rightarrow> error + string" where
  "getHttpV4Endpoint config =
     (if optField config protocol = Some JsonRpc then Inl UnsupportedProtocolError
      else
        (let network = orString (map_option networkString (optField config network)) ''mainnet'';
             host = orString (optField config host) ''ton.access.orbs.network'';
             version = orNumber (optField config accessVersion) literalOne
         in Inr (''https://'' @ host @ ''/[node-id]/'' @ numberToString version @ ''/'' @ network
                 @ ''/ton-api-v4'')))"

definition getHttpV4Endpoints :: "TonAccessConfig option \<Rightarrow> bool option \<Rightarrow> error + string list" where
  "getHttpV4Endpoints config single =
     (if optField config protocol = Some JsonRpc then Inl UnsupportedProtocolError
      else if truthy single then
        (case getHttpV4Endpoint config of
           Inl e \<Rightarrow> Inl e
         | Inr endpoint \<Rightarrow> Inr [endpoint])
      else
        (let network = orString (map_option networkString (optField config network)) ''mainnet'';
             host = orString (optField config host) ''ton.access.orbs.network'';
             version = orNumber (optField config accessVersion) literalOne
         in Inr
           [''https://'' @ host @ ''/node1/'' @ numberToString version @ ''/'' @ network
              @ ''/ton-api-v4'',
            ''https://'' @ host @ ''/node2/'' @ numberToString version @ ''/'' @ network
              @ ''/ton-api-v4'',
            ''https://'' @ host @ ''/node3/'' @ numberToString version @ ''/'' @ network
              @ ''/ton-api-v4'']))"

text \<open>
  \<open>interface AdnlProxyEndpointResult\<close>, the result of \<open>getAdnlProxyEndpoint\<close>.
\<close>

record AdnlProxyEndpointResult =
  endpoint :: string
  publicKey :: string



section \<open>Calls of the methods, one after another\<close>







text \<open>
  The URL format as the repository's documents and the specification write it:
  \<open>https://{host}/{nodeId}/{version}/{network}/{protocol}/{suffix}\<close>. The methods above do
  not call it (each one writes its own template literal): it is the shape their results
  are compared with.
\<close>

definition endpointUrlFormat ::
  "string \<Rightarrow> string \<Rightarrow> string \<Rightarrow> string \<Rightarrow> string \<Rightarrow> string \<Rightarrow> string" where
  "endpointUrlFormat h nodeId v n p s =
     ''https://'' @ h @ ''/'' @ nodeId @ ''/'' @ v @ ''/'' @ n @ ''/'' @ p @ ''/'' @ s"

section \<open>The weighted selector\<close>

text \<open>
  Modelled from the spec: the Weighted Selector (section 4.3). The repository has no
  function that selects a node: \<open>ton-access-mcp.ts\<close> writes the placeholders
  \<open>[node-id]\<close>, \<open>node1\<close>, \<open>node2\<close>, \<open>node3\<close> and never reads \<open>Weight\<close>; its documents only say
  that the ton-access library balances load by a weighted random algorithm.
  \<open>totalWeight\<close> is "sum(weight for each candidate)".
\<close>

definition totalWeight :: "TonAccessNode list \<Rightarrow> real" where
  "totalWeight candidates = sum_list (map Weight candidates)"

text \<open>
  Modelled from the spec: "walk the candidate set accumulating weights until the running
  sum exceeds the draw -- the node at that point is selected". \<open>running\<close> is the sum
  accumulated before the candidates still to walk; \<open>None\<close> when the walk ends with the
  running sum never above the draw.
\<close>

fun walk :: "real \<Rightarrow> real \<Rightarrow> TonAccessNode list \<Rightarrow> TonAccessNode option" where
  "walk draw running [] = None"
| "walk draw running (node # rest) =
     (if draw < running + Weight node then Some node
      else walk draw (running + Weight node) rest)"

text \<open>
  Modelled from the spec: the injected, seedable random source. \<open>uniformIndex rnd n\<close> is
  its uniform choice among \<open>n\<close> positions, \<open>uniformBelow rnd t\<close> its uniform draw in
  \<open>[0, t)\<close>; the theorems assume these ranges where they need them.
\<close>

record RandomSource =
  uniformIndex :: "nat \<Rightarrow> nat"
  uniformBelow :: "real \<Rightarrow> real"

text \<open>
  Modelled from the spec: one selection of \<open>pick\<close>. "If totalWeight == 0, treat selection
  as uniform random over candidates. Otherwise draw a uniform random value in
  [0, totalWeight) and walk the candidate set".
\<close>

definition pickOne :: "RandomSource \<Rightarrow> TonAccessNode list \<Rightarrow> TonAccessNode option" where
  "pickOne rnd candidates =
     (if totalWeight candidates = 0 then
        (if uniformIndex rnd (length candidates) < length candidates
         then Some (candidates ! uniformIndex rnd (length candidates)) else None)
      else walk (uniformBelow rnd (totalWeight candidates)) 0 candidates)"

text \<open>
  Modelled from the spec: the "running sum" after the first \<open>k\<close> candidates, the quantity
  the walk compares with the draw.
\<close>

definition runningWeight :: "TonAccessNode list \<Rightarrow> nat \<Rightarrow> real" where
  "runningWeight candidates k = sum_list (map Weight (take k candidates))"

text \<open>
  A node record with a given id and weight, to evaluate the selector on concrete
  candidates.
\<close>

definition nodeWith :: "string \<Rightarrow> real \<Rightarrow> TonAccessNode" where
  "nodeWith nodeId w =
     \<lparr>NodeId = nodeId, BackendName = ''backend'', Ip = ''10.0.0.1'', Weight = w, Healthy = ''1'',
      Mngr = \<lparr>updated = [], health = Map.empty, successTS = 0, errors = [], code = 200,
              statusText = ''OK''\<rparr>\<rparr>"

section \<open>Failing fast on json-rpc\<close>

lemma getHttpV4Endpoint_jsonrpc:
  "optField config protocol = Some JsonRpc \<Longrightarrow>
     getHttpV4Endpoint config = Inl UnsupportedProtocolError"
  by (simp add: getHttpV4Endpoint_def)

lemma getHttpV4Endpoints_jsonrpc:
  "optField config protocol = Some JsonRpc \<Longrightarrow>
     getHttpV4Endpoints config single = Inl UnsupportedProtocolError"
  by (simp add: getHttpV4Endpoints_def)

lemma getHttpV4Endpoint_other:
  "optField config protocol \<noteq> Some JsonRpc \<Longrightarrow> \<exists>url. getHttpV4Endpoint config = Inr url"
  by (simp add: getHttpV4Endpoint_def Let_def)

lemma getHttpV4Endpoints_other:
  "optField config protocol \<noteq> Some JsonRpc \<Longrightarrow> \<exists>urls. getHttpV4Endpoints config single = Inr urls"
  by (simp add: getHttpV4Endpoints_def getHttpV4Endpoint_def Let_def)

text \<open>
  C1: when the \<open>protocol\<close> field of the config is \<open>json-rpc\<close>, \<open>getHttpV4Endpoint\<close> and
  \<open>getHttpV4Endpoints\<close> (whatever \<open>single\<close> is) both fail with the unsupported-protocol
  error. The check is the first statement of both methods, and neither method fetches or
  selects anything on any path, so the rejection is the whole of the call.
\<close>

theorem v4_rejects_jsonrpc:
  assumes "optField config protocol = Some JsonRpc"
  shows "getHttpV4Endpoint config = Inl UnsupportedProtocolError
       \<and> getHttpV4Endpoints config single = Inl UnsupportedProtocolError"
  using assms by (simp add: getHttpV4Endpoint_jsonrpc getHttpV4Endpoints_jsonrpc)

theorem v4_rejects_jsonrpc_witness:
  "getHttpV4Endpoint
     (Some \<lparr>network = Some Testnet, host = None, accessVersion = None, protocol = Some JsonRpc\<rparr>)
     = Inl (Error ''config.protocol json-rpc is not supported for getTonApiV4Endpoints'')
   \<and> getHttpV4Endpoints
     (Some \<lparr>network = Some Testnet, host = None, accessVersion = None, protocol = Some JsonRpc\<rparr>)
     (Some True)
     = Inl (Error ''config.protocol json-rpc is not supported for getTonApiV4Endpoints'')"
  using v4_rejects_jsonrpc
    [of "Some \<lparr>network = Some Testnet, host = None, accessVersion = None, protocol = Some JsonRpc\<rparr>"
        "Some True"]
  by (simp add: optField_def UnsupportedProtocolError_def)

text \<open>
  C9: \<open>getHttpV4Endpoint\<close> and \<open>getHttpV4Endpoints\<close> fail exactly when the \<open>protocol\<close> field
  of the config is \<open>json-rpc\<close>, and then with the unsupported-protocol error; for every
  other config (omitted, or with any network, host and accessVersion) and every \<open>single\<close>
  both return a result.
\<close>

theorem v4_fails_iff_jsonrpc:
  "(optField config protocol = Some JsonRpc
      \<and> getHttpV4Endpoint config = Inl UnsupportedProtocolError
      \<and> getHttpV4Endpoints config single = Inl UnsupportedProtocolError)
   \<or> (optField config protocol \<noteq> Some JsonRpc
      \<and> (\<exists>url. getHttpV4Endpoint config = Inr url)
      \<and> (\<exists>urls. getHttpV4Endpoints config single = Inr urls))"
proof (cases "optField config protocol = Some JsonRpc")
  case True
  then show ?thesis
    by (simp add: getHttpV4Endpoint_jsonrpc getHttpV4Endpoints_jsonrpc)
next
  case False
  then show ?thesis
    using getHttpV4Endpoint_other [OF False] getHttpV4Endpoints_other [OF False, of single]
    by simp
qed

theorem v4_fails_iff_jsonrpc_witness:
  "getHttpV4Endpoint (Some \<lparr>network = None, host = None, accessVersion = None,
       protocol = Some JsonRpc\<rparr>) = Inl UnsupportedProtocolError
   \<and> getHttpV4Endpoints (Some \<lparr>network = None, host = None, accessVersion = None,
       protocol = Some JsonRpc\<rparr>) None = Inl UnsupportedProtocolError
   \<and> (\<exists>url. getHttpV4Endpoint None = Inr url)
   \<and> (\<exists>urls. getHttpV4Endpoints None (Some False) = Inr urls)"
  using v4_fails_iff_jsonrpc [of "Some \<lparr>network = None, host = None, accessVersion = None,
       protocol = Some JsonRpc\<rparr>" None]
    v4_fails_iff_jsonrpc [of None "Some False"]
  by (simp add: optField_def)

section \<open>URLs of the toncenter-api-v2 methods\<close>

lemma getHttpEndpoint_url:
  "getHttpEndpoint config =
     Inr (''https://'' @ orString (optField config host) ''ton.access.orbs.network''
          @ ''/[node-id]/'' @ numberToString (orNumber (optField config accessVersion) literalOne)
          @ ''/'' @ orString (map_option networkString (optField config network)) ''mainnet''
          @ ''/toncenter-api-v2/''
          @ (if optField config protocol = Some Rest then [] else ''jsonRPC''))"
  by (simp add: getHttpEndpoint_def Let_def)

lemma networkString_not_empty: "networkString n \<noteq> []"
  by (cases n) (simp_all add: networkString_def)

lemma orString_network:
  "orString (map_option networkString nw) ''mainnet''
     = networkString (case nw of None \<Rightarrow> Mainnet | Some t \<Rightarrow> t)"
  by (cases nw) (simp_all add: orString_def networkString_not_empty, simp add: networkString_def)

lemma Rep_safeInteger_literal:
  "- (2 ^ 53) < n \<Longrightarrow> n < 2 ^ 53 \<Longrightarrow> Rep_safeInteger (Abs_safeInteger n) = n"
  by (simp add: Abs_safeInteger_inverse)

lemma numberToString_literalOne: "numberToString literalOne = ''1''"
  by (simp add: literalOne_def Rep_safeInteger_literal intToString_def digitsToString.simps)

text \<open>
  C2: for every config (omitted too), the URL \<open>getHttpEndpoint\<close> returns is the format
  \<open>https://{host}/{nodeId}/{version}/{network}/toncenter-api-v2/{suffix}\<close> with the
  placeholder \<open>[node-id]\<close> as node id, where the host is the default
  \<open>ton.access.orbs.network\<close> when omitted and the config's host when given (and not empty),
  the version is \<open>1\<close> when accessVersion is omitted and the config's accessVersion as
  JavaScript prints it when given (and not 0 or NaN), which for a safe integer is its
  decimal digits, the network is mainnet when omitted and the config's network when given,
  and the suffix is \<open>jsonRPC\<close> when the protocol format is not \<open>rest\<close>.
\<close>

theorem getHttpEndpoint_url_shape:
  "\<exists>h v n s.
     getHttpEndpoint config =
       Inr (endpointUrlFormat h ''[node-id]'' v (networkString n) ''toncenter-api-v2'' s)
     \<and> (optField config host = None \<longrightarrow> h = ''ton.access.orbs.network'')
     \<and> (\<forall>x. optField config host = Some x \<and> x \<noteq> [] \<longrightarrow> h = x)
     \<and> (optField config accessVersion = None \<longrightarrow> v = ''1'')
     \<and> (\<forall>k. optField config accessVersion = Some k \<and> \<not> falsy k \<longrightarrow> v = numberToString k)
     \<and> (\<forall>i. optField config accessVersion = Some (SafeInteger i) \<and> Rep_safeInteger i \<noteq> 0
            \<longrightarrow> v = intToString (Rep_safeInteger i))
     \<and> (optField config network = None \<longrightarrow> n = Mainnet)
     \<and> (\<forall>t. optField config network = Some t \<longrightarrow> n = t)
     \<and> (optField config protocol \<noteq> Some Rest \<longrightarrow> s = ''jsonRPC'')"
proof -
  let ?h = "orString (optField config host) ''ton.access.orbs.network''"
  let ?v = "numberToString (orNumber (optField config accessVersion) literalOne)"
  let ?n = "case optField config network of None \<Rightarrow> Mainnet | Some t \<Rightarrow> t"
  let ?s = "if optField config protocol = Some Rest then [] else ''jsonRPC''"
  have url: "getHttpEndpoint config =
       Inr (endpointUrlFormat ?h ''[node-id]'' ?v (networkString ?n) ''toncenter-api-v2'' ?s)"
    by (simp only: getHttpEndpoint_url orString_network endpointUrlFormat_def) simp
  have h1: "optField config host = None \<longrightarrow> ?h = ''ton.access.orbs.network''"
    by (simp add: orString_def)
  have h2: "\<forall>x. optField config host = Some x \<and> x \<noteq> [] \<longrightarrow> ?h = x"
    by (simp add: orString_def)
  have v1: "optField config accessVersion = None \<longrightarrow> ?v = ''1''"
    by (simp add: orNumber_def numberToString_literalOne)
  have v2: "\<forall>k. optField config accessVersion = Some k \<and> \<not> falsy k \<longrightarrow> ?v = numberToString k"
    by (simp add: orNumber_def)
  have v3: "\<forall>i. optField config accessVersion = Some (SafeInteger i) \<and> Rep_safeInteger i \<noteq> 0
            \<longrightarrow> ?v = intToString (Rep_safeInteger i)"
    by (simp add: orNumber_def)
  have n1: "optField config network = None \<longrightarrow> ?n = Mainnet" by simp
  have n2: "\<forall>t. optField config network = Some t \<longrightarrow> ?n = t" by simp
  have s1: "optField config protocol \<noteq> Some Rest \<longrightarrow> ?s = ''jsonRPC''" by simp
  show ?thesis
    by (rule exI[of _ ?h], rule exI[of _ ?v], rule exI[of _ ?n], rule exI[of _ ?s])
       (intro conjI url h1 h2 v1 v2 v3 n1 n2 s1)
qed

theorem getHttpEndpoint_url_shape_witness:
  "getHttpEndpoint
     (Some \<lparr>network = Some Testnet, host = Some ''edge.example'',
            accessVersion = Some (SafeInteger (Abs_safeInteger 27)), protocol = Some JsonRpc\<rparr>)
     = Inr ''https://edge.example/[node-id]/27/testnet/toncenter-api-v2/jsonRPC''
   \<and> getHttpEndpoint
     (Some \<lparr>network = None, host = None, accessVersion = Some (OtherNumber ''1.5''),
            protocol = None\<rparr>)
     = Inr ''https://ton.access.orbs.network/[node-id]/1.5/mainnet/toncenter-api-v2/jsonRPC''
   \<and> getHttpEndpoint None
     = Inr ''https://ton.access.orbs.network/[node-id]/1/mainnet/toncenter-api-v2/jsonRPC''"
proof (intro conjI)
  let ?c = "Some \<lparr>network = Some Testnet, host = Some ''edge.example'',
            accessVersion = Some (SafeInteger (Abs_safeInteger 27)), protocol = Some JsonRpc\<rparr>"
  from getHttpEndpoint_url_shape [of ?c] obtain h v n s where
    url: "getHttpEndpoint ?c = Inr (endpointUrlFormat h ''[node-id]'' v
              (networkString n) ''toncenter-api-v2'' s)"
    and h: "\<forall>x. optField ?c host = Some x \<and> x \<noteq> [] \<longrightarrow> h = x"
    and v: "\<forall>i. optField ?c accessVersion = Some (SafeInteger i) \<and> Rep_safeInteger i \<noteq> 0
            \<longrightarrow> v = intToString (Rep_safeInteger i)"
    and n: "\<forall>t. optField ?c network = Some t \<longrightarrow> n = t"
    and s: "optField ?c protocol \<noteq> Some Rest \<longrightarrow> s = ''jsonRPC''"
    by (elim exE conjE)
  from h have "h = ''edge.example''" by (simp add: optField_def)
  moreover from v have "v = ''27''"
    by (simp add: optField_def Rep_safeInteger_literal intToString_def digitsToString.simps)
  moreover from n have "n = Testnet" by (simp add: optField_def)
  moreover from s have "s = ''jsonRPC''" by (simp add: optField_def)
  ultimately show "getHttpEndpoint ?c
      = Inr ''https://edge.example/[node-id]/27/testnet/toncenter-api-v2/jsonRPC''"
    using url by (simp add: endpointUrlFormat_def networkString_def)
next
  let ?c = "Some \<lparr>network = None, host = None, accessVersion = Some (OtherNumber ''1.5''),
            protocol = None\<rparr>"
  from getHttpEndpoint_url_shape [of ?c] obtain h v n s where
    url: "getHttpEndpoint ?c = Inr (endpointUrlFormat h ''[node-id]'' v
              (networkString n) ''toncenter-api-v2'' s)"
    and h: "optField ?c host = None \<longrightarrow> h = ''ton.access.orbs.network''"
    and v: "\<forall>k. optField ?c accessVersion = Some k \<and> \<not> falsy k \<longrightarrow> v = numberToString k"
    and n: "optField ?c network = None \<longrightarrow> n = Mainnet"
    and s: "optField ?c protocol \<noteq> Some Rest \<longrightarrow> s = ''jsonRPC''"
    by (elim exE conjE)
  from h have "h = ''ton.access.orbs.network''" by (simp add: optField_def)
  moreover from v have "v = ''1.5''" by (simp add: optField_def)
  moreover from n have "n = Mainnet" by (simp add: optField_def)
  moreover from s have "s = ''jsonRPC''" by (simp add: optField_def)
  ultimately show "getHttpEndpoint ?c
      = Inr ''https://ton.access.orbs.network/[node-id]/1.5/mainnet/toncenter-api-v2/jsonRPC''"
    using url by (simp add: endpointUrlFormat_def networkString_def)
next
  let ?c = "None :: TonAccessConfig option"
  from getHttpEndpoint_url_shape [of ?c] obtain h v n s where
    url: "getHttpEndpoint ?c = Inr (endpointUrlFormat h ''[node-id]'' v
              (networkString n) ''toncenter-api-v2'' s)"
    and h: "optField ?c host = None \<longrightarrow> h = ''ton.access.orbs.network''"
    and v: "optField ?c accessVersion = None \<longrightarrow> v = ''1''"
    and n: "optField ?c network = None \<longrightarrow> n = Mainnet"
    and s: "optField ?c protocol \<noteq> Some Rest \<longrightarrow> s = ''jsonRPC''"
    by (elim exE conjE)
  from h have "h = ''ton.access.orbs.network''" by (simp add: optField_def)
  moreover from v have "v = ''1''" by (simp add: optField_def)
  moreover from n have "n = Mainnet" by (simp add: optField_def)
  moreover from s have "s = ''jsonRPC''" by (simp add: optField_def)
  ultimately show "getHttpEndpoint ?c
      = Inr ''https://ton.access.orbs.network/[node-id]/1/mainnet/toncenter-api-v2/jsonRPC''"
    using url by (simp add: endpointUrlFormat_def networkString_def)
qed

lemma getHttpEndpoint_rest:
  "optField config protocol = Some Rest \<Longrightarrow>
   getHttpEndpoint config =
     Inr ((''https://'' @ orString (optField config host) ''ton.access.orbs.network''
          @ ''/[node-id]/'' @ numberToString (orNumber (optField config accessVersion) literalOne)
          @ ''/'' @ orString (map_option networkString (optField config network)) ''mainnet'')
          @ ''/toncenter-api-v2/'')"
  by (simp add: getHttpEndpoint_url)

lemma ends_with_slash_not_jsonRPC: "pre @ ''/toncenter-api-v2/'' \<noteq> q @ ''jsonRPC''"
proof
  assume "pre @ ''/toncenter-api-v2/'' = q @ ''jsonRPC''"
  then have "last (pre @ ''/toncenter-api-v2/'') = last (q @ ''jsonRPC'')" by (rule arg_cong)
  then show False by simp
qed

text \<open>
  C3, as the source has it: for every config whose protocol format is \<open>rest\<close>, the URL
  \<open>getHttpEndpoint\<close> returns has no \<open>jsonRPC\<close> suffix (it does not end with \<open>jsonRPC\<close>); it
  ends with the protocol segment and the slash that separates it from the empty suffix,
  \<open>/toncenter-api-v2/\<close>. The template literal writes that slash whatever the suffix is, so
  the URL does end with a slash: the last theorem of the three below evaluates the method
  on the config \<open>{protocol: "rest"}\<close>.
\<close>

theorem rest_url_ends_with_slash:
  assumes "optField config protocol = Some Rest"
  shows "\<exists>pre. getHttpEndpoint config = Inr (pre @ ''/toncenter-api-v2/'')
           \<and> (\<forall>q. pre @ ''/toncenter-api-v2/'' \<noteq> q @ ''jsonRPC'')"
proof -
  let ?pre = "''https://'' @ orString (optField config host) ''ton.access.orbs.network''
          @ ''/[node-id]/'' @ numberToString (orNumber (optField config accessVersion) literalOne)
          @ ''/'' @ orString (map_option networkString (optField config network)) ''mainnet''"
  from getHttpEndpoint_rest [OF assms]
  have "getHttpEndpoint config = Inr (?pre @ ''/toncenter-api-v2/'')" .
  moreover have "\<forall>q. ?pre @ ''/toncenter-api-v2/'' \<noteq> q @ ''jsonRPC''"
    by (intro allI ends_with_slash_not_jsonRPC)
  ultimately have "getHttpEndpoint config = Inr (?pre @ ''/toncenter-api-v2/'')
           \<and> (\<forall>q. ?pre @ ''/toncenter-api-v2/'' \<noteq> q @ ''jsonRPC'')"
    by (rule conjI)
  then show ?thesis by (rule exI[of _ ?pre])
qed

theorem rest_url_ends_with_slash_witness:
  "\<exists>pre. getHttpEndpoint
       (Some \<lparr>network = Some Testnet, host = None, accessVersion = None, protocol = Some Rest\<rparr>)
     = Inr (pre @ ''/toncenter-api-v2/'')
     \<and> (\<forall>q. pre @ ''/toncenter-api-v2/'' \<noteq> q @ ''jsonRPC'')"
  using rest_url_ends_with_slash
    [of "Some \<lparr>network = Some Testnet, host = None, accessVersion = None, protocol = Some Rest\<rparr>"]
  by (simp add: optField_def)

theorem rest_url_trailing_slash_counterexample:
  "getHttpEndpoint
     (Some \<lparr>network = None, host = None, accessVersion = None, protocol = Some Rest\<rparr>)
     = Inr ''https://ton.access.orbs.network/[node-id]/1/mainnet/toncenter-api-v2/''
   \<and> last ''https://ton.access.orbs.network/[node-id]/1/mainnet/toncenter-api-v2/'' = CHR ''/''"
  by (simp add: getHttpEndpoint_url optField_def orString_def orNumber_def numberToString_literalOne)

text \<open>
  C4: for every config, \<open>getHttpEndpoints\<close> with \<open>single = true\<close> returns a list of length 1
  whose only element is the URL \<open>getHttpEndpoint\<close> returns for the same config. Neither
  method reads a random source.
\<close>

theorem getHttpEndpoints_single:
  "\<exists>url urls. getHttpEndpoint config = Inr url
       \<and> getHttpEndpoints config (Some True) = Inr urls
       \<and> length urls = 1 \<and> urls = [url]"
  by (simp add: getHttpEndpoints_def truthy_def getHttpEndpoint_url)

text \<open>
  C5, as the source has it: \<open>getHttpEndpoint\<close> keeps no fleet snapshot, reads no clock and
  attempts no refresh, so how old a snapshot is and whether a refresh fails are not inputs
  of the call: for every config it returns a URL, and it never fails with the stale-data
  error. The second theorem below is the call with no config, which returns its URL at
  eleven minutes after a fetch as at any other time.
\<close>

theorem getHttpEndpoint_never_stale:
  "(\<exists>url. getHttpEndpoint config = Inr url) \<and> getHttpEndpoint config \<noteq> Inl AllNodesStaleError"
  by (simp add: getHttpEndpoint_url)

theorem getHttpEndpoint_stale_counterexample:
  "getHttpEndpoint None
     = Inr ''https://ton.access.orbs.network/[node-id]/1/mainnet/toncenter-api-v2/jsonRPC''
   \<and> getHttpEndpoint None \<noteq> Inl AllNodesStaleError"
  by (simp add: getHttpEndpoint_url optField_def orString_def orNumber_def numberToString_literalOne)

section \<open>No variation across calls\<close>






section \<open>URLs of the ton-api-v4 methods\<close>

lemma getHttpV4Endpoint_url:
  "optField config protocol \<noteq> Some JsonRpc \<Longrightarrow>
   getHttpV4Endpoint config =
     Inr ((''https://'' @ orString (optField config host) ''ton.access.orbs.network''
          @ ''/[node-id]/'' @ numberToString (orNumber (optField config accessVersion) literalOne)
          @ ''/'' @ orString (map_option networkString (optField config network)) ''mainnet'')
          @ ''/ton-api-v4'')"
  by (simp add: getHttpV4Endpoint_def Let_def)

text \<open>
  C7: for every config whose protocol format is not \<open>json-rpc\<close>, the URL
  \<open>getHttpV4Endpoint\<close> returns ends with the protocol segment \<open>/ton-api-v4\<close>: nothing, no
  suffix and no slash, comes after it.
\<close>

theorem v4_url_ends_with_protocol:
  assumes "optField config protocol \<noteq> Some JsonRpc"
  shows "\<exists>pre. getHttpV4Endpoint config = Inr (pre @ ''/ton-api-v4'')"
proof -
  let ?pre = "''https://'' @ orString (optField config host) ''ton.access.orbs.network''
          @ ''/[node-id]/'' @ numberToString (orNumber (optField config accessVersion) literalOne)
          @ ''/'' @ orString (map_option networkString (optField config network)) ''mainnet''"
  from getHttpV4Endpoint_url [OF assms]
  have "getHttpV4Endpoint config = Inr (?pre @ ''/ton-api-v4'')" .
  then show ?thesis by (rule exI[of _ ?pre])
qed

theorem v4_url_ends_with_protocol_witness:
  "\<exists>pre. getHttpV4Endpoint
       (Some \<lparr>network = Some Testnet, host = None, accessVersion = Some (SafeInteger (Abs_safeInteger 2)), protocol = Some Rest\<rparr>)
     = Inr (pre @ ''/ton-api-v4'')"
  using v4_url_ends_with_protocol
    [of "Some \<lparr>network = Some Testnet, host = None, accessVersion = Some (SafeInteger (Abs_safeInteger 2)), protocol = Some Rest\<rparr>"]
  by (simp add: optField_def)

section \<open>The fan-out of getHttpEndpoints\<close>

lemma getHttpEndpoints_fanout:
  "\<not> truthy single \<Longrightarrow>
   getHttpEndpoints config single =
     Inr (map (\<lambda>nodeId.
            (''https://'' @ orString (optField config host) ''ton.access.orbs.network'' @ ''/'')
            @ nodeId
            @ (''/'' @ numberToString (orNumber (optField config accessVersion) literalOne)
               @ ''/'' @ orString (map_option networkString (optField config network)) ''mainnet''
               @ ''/toncenter-api-v2/''
               @ (if optField config protocol = Some Rest then [] else ''jsonRPC'')))
          [''node1'', ''node2'', ''node3''])"
  by (simp add: getHttpEndpoints_def Let_def)

lemma distinct_between:
  "distinct ids \<Longrightarrow> distinct (map (\<lambda>nodeId. pre @ nodeId @ post) ids)"
  by (simp add: distinct_map inj_on_def)

text \<open>
  C8, as the source has it: for every config, \<open>getHttpEndpoints\<close> with \<open>single\<close> false or
  omitted returns exactly 3 URLs, pairwise distinct, which differ only in the node id:
  the placeholders \<open>node1\<close>, \<open>node2\<close>, \<open>node3\<close>. The method reads no fleet and no health
  data, so the number of URLs is 3 whatever the healthy candidates are: the third theorem
  below takes no healthy candidate at all.
\<close>

theorem getHttpEndpoints_three_placeholders:
  assumes "single \<noteq> Some True"
  shows "\<exists>urls pre post.
           getHttpEndpoints config single = Inr urls
         \<and> urls = map (\<lambda>nodeId. pre @ nodeId @ post) [''node1'', ''node2'', ''node3'']
         \<and> length urls = 3 \<and> distinct urls"
proof -
  let ?pre = "''https://'' @ orString (optField config host) ''ton.access.orbs.network'' @ ''/''"
  let ?post = "''/'' @ numberToString (orNumber (optField config accessVersion) literalOne)
               @ ''/'' @ orString (map_option networkString (optField config network)) ''mainnet''
               @ ''/toncenter-api-v2/''
               @ (if optField config protocol = Some Rest then [] else ''jsonRPC'')"
  let ?urls = "map (\<lambda>nodeId. ?pre @ nodeId @ ?post) [''node1'', ''node2'', ''node3'']"
  from assms have "\<not> truthy single" by (simp add: truthy_def)
  then have 1: "getHttpEndpoints config single = Inr ?urls"
    by (rule getHttpEndpoints_fanout)
  have ids: "distinct [''node1'', ''node2'', ''node3'']" by simp
  have 2: "distinct ?urls" using ids by (rule distinct_between)
  have 3: "length ?urls = 3" by simp
  have "getHttpEndpoints config single = Inr ?urls
         \<and> ?urls = map (\<lambda>nodeId. ?pre @ nodeId @ ?post) [''node1'', ''node2'', ''node3'']
         \<and> length ?urls = 3 \<and> distinct ?urls"
    using 1 2 3 by (intro conjI refl)
  then show ?thesis
    by (intro exI[of _ ?urls] exI[of _ ?pre] exI[of _ ?post])
qed

theorem getHttpEndpoints_three_placeholders_witness:
  "\<exists>urls pre post.
      getHttpEndpoints None None = Inr urls
    \<and> urls = map (\<lambda>nodeId. pre @ nodeId @ post) [''node1'', ''node2'', ''node3'']
    \<and> length urls = 3 \<and> distinct urls"
proof -
  have "(None :: bool option) \<noteq> Some True" by simp
  then show ?thesis by (rule getHttpEndpoints_three_placeholders)
qed

theorem getHttpEndpoints_candidates_counterexample:
  "\<not> (\<forall>candidates :: TonAccessNode list. \<forall>urls.
         getHttpEndpoints None None = Inr urls \<longrightarrow> length urls \<le> length candidates)"
proof
  assume a: "\<forall>candidates :: TonAccessNode list. \<forall>urls.
         getHttpEndpoints None None = Inr urls \<longrightarrow> length urls \<le> length candidates"
  have "\<not> truthy None" by (simp add: truthy_def)
  from getHttpEndpoints_fanout [OF this, of None] a
  have "length (map (\<lambda>nodeId::string. nodeId) [''node1'', ''node2'', ''node3''])
          \<le> length ([] :: TonAccessNode list)"
    by (metis length_map)
  then show False by simp
qed

section \<open>The walk of the weighted selector\<close>

lemma walk_first:
  "running \<le> draw \<Longrightarrow> draw < running + sum_list (map Weight cs) \<Longrightarrow>
   \<exists>i<length cs. walk draw running cs = Some (cs ! i)
      \<and> draw < running + sum_list (map Weight (take (Suc i) cs))
      \<and> (\<forall>j<i. running + sum_list (map Weight (take (Suc j) cs)) \<le> draw)"
proof (induction cs arbitrary: running)
  case Nil
  then show ?case by simp
next
  case (Cons c cs)
  show ?case
  proof (cases "draw < running + Weight c")
    case True
    then show ?thesis by (intro exI[of _ 0]) simp
  next
    case False
    from Cons.prems have lt: "draw < (running + Weight c) + sum_list (map Weight cs)"
      by (simp add: add.assoc)
    from False have le: "running + Weight c \<le> draw" by simp
    from Cons.IH[OF le lt] obtain i where i: "i < length cs"
      "walk draw (running + Weight c) cs = Some (cs ! i)"
      "draw < running + Weight c + sum_list (map Weight (take (Suc i) cs))"
      "\<forall>j<i. running + Weight c + sum_list (map Weight (take (Suc j) cs)) \<le> draw"
      by blast
    have "\<forall>j<Suc i. running + sum_list (map Weight (take (Suc j) (c # cs))) \<le> draw"
    proof (intro allI impI)
      fix j assume "j < Suc i"
      show "running + sum_list (map Weight (take (Suc j) (c # cs))) \<le> draw"
      proof (cases j)
        case 0
        with False show ?thesis by simp
      next
        case (Suc k)
        with \<open>j < Suc i\<close> have "k < i" by simp
        with i(4) have "running + Weight c + sum_list (map Weight (take (Suc k) cs)) \<le> draw"
          by blast
        with Suc show ?thesis by (simp add: add.assoc)
      qed
    qed
    with i False show ?thesis
      by (intro exI[of _ "Suc i"]) (simp add: add.assoc)
  qed
qed

lemma pickOne_weighted:
  assumes "totalWeight cs \<noteq> 0" "0 \<le> uniformBelow rnd (totalWeight cs)"
     "uniformBelow rnd (totalWeight cs) < totalWeight cs"
  shows "\<exists>i<length cs. pickOne rnd cs = Some (cs ! i)
      \<and> uniformBelow rnd (totalWeight cs) < runningWeight cs (Suc i)
      \<and> (\<forall>j<i. runningWeight cs (Suc j) \<le> uniformBelow rnd (totalWeight cs))"
  using walk_first[of 0 "uniformBelow rnd (totalWeight cs)" cs] assms
  by (simp add: pickOne_def runningWeight_def totalWeight_def)

lemma pickOne_uniform:
  assumes "totalWeight cs = 0" "uniformIndex rnd (length cs) < length cs"
  shows "pickOne rnd cs = Some (cs ! uniformIndex rnd (length cs))"
  using assms by (simp add: pickOne_def)

text \<open>
  C6: for every candidate sequence, \<open>totalWeight\<close> is the sum of the candidates' weights;
  when it is 0 the selector returns the candidate at the position the random source
  draws uniformly among the positions of the candidates, whatever the weights; otherwise,
  given a draw in \<open>[0, totalWeight)\<close>, it returns the first
  candidate at which the running sum of the weights exceeds the draw: the running sum is
  above the draw there and at most the draw at every earlier candidate.
\<close>

theorem weighted_selector:
  "totalWeight candidates = (\<Sum>i<length candidates. Weight (candidates ! i))
   \<and> (totalWeight candidates = 0 \<and> uniformIndex rnd (length candidates) < length candidates
        \<longrightarrow> pickOne rnd candidates = Some (candidates ! uniformIndex rnd (length candidates)))
   \<and> (totalWeight candidates \<noteq> 0 \<and> 0 \<le> uniformBelow rnd (totalWeight candidates)
        \<and> uniformBelow rnd (totalWeight candidates) < totalWeight candidates
        \<longrightarrow> (\<exists>i<length candidates. pickOne rnd candidates = Some (candidates ! i)
               \<and> uniformBelow rnd (totalWeight candidates) < runningWeight candidates (Suc i)
               \<and> (\<forall>j<i. runningWeight candidates (Suc j)
                           \<le> uniformBelow rnd (totalWeight candidates))))"
proof (intro conjI impI)
  show "totalWeight candidates = (\<Sum>i<length candidates. Weight (candidates ! i))"
    unfolding totalWeight_def
    by (simp add: sum_list_sum_nth atLeast0LessThan)
next
  assume "totalWeight candidates = 0 \<and> uniformIndex rnd (length candidates) < length candidates"
  then show "pickOne rnd candidates = Some (candidates ! uniformIndex rnd (length candidates))"
    by (simp add: pickOne_uniform)
next
  assume "totalWeight candidates \<noteq> 0 \<and> 0 \<le> uniformBelow rnd (totalWeight candidates)
        \<and> uniformBelow rnd (totalWeight candidates) < totalWeight candidates"
  then show "\<exists>i<length candidates. pickOne rnd candidates = Some (candidates ! i)
               \<and> uniformBelow rnd (totalWeight candidates) < runningWeight candidates (Suc i)
               \<and> (\<forall>j<i. runningWeight candidates (Suc j)
                           \<le> uniformBelow rnd (totalWeight candidates))"
    using pickOne_weighted [of candidates rnd] by blast
qed

theorem weighted_selector_witness:
  "pickOne \<lparr>uniformIndex = (\<lambda>n. 0), uniformBelow = (\<lambda>t. 2)\<rparr>
      [nodeWith ''a'' 1, nodeWith ''b'' 3] = Some (nodeWith ''b'' 3)
   \<and> pickOne \<lparr>uniformIndex = (\<lambda>n. 1), uniformBelow = (\<lambda>t. 0)\<rparr>
      [nodeWith ''a'' 0, nodeWith ''b'' 0] = Some (nodeWith ''b'' 0)"
proof
  let ?rnd = "\<lparr>uniformIndex = (\<lambda>n. 0), uniformBelow = (\<lambda>t. 2)\<rparr>"
  let ?cs = "[nodeWith ''a'' 1, nodeWith ''b'' 3]"
  have tw: "totalWeight ?cs = 4" by (simp add: totalWeight_def nodeWith_def)
  from weighted_selector [of ?cs ?rnd]
  have "totalWeight ?cs \<noteq> 0 \<and> 0 \<le> uniformBelow ?rnd (totalWeight ?cs)
        \<and> uniformBelow ?rnd (totalWeight ?cs) < totalWeight ?cs
        \<longrightarrow> (\<exists>i<length ?cs. pickOne ?rnd ?cs = Some (?cs ! i)
               \<and> uniformBelow ?rnd (totalWeight ?cs) < runningWeight ?cs (Suc i)
               \<and> (\<forall>j<i. runningWeight ?cs (Suc j) \<le> uniformBelow ?rnd (totalWeight ?cs)))"
    by (elim conjE)
  moreover have "totalWeight ?cs \<noteq> 0 \<and> 0 \<le> uniformBelow ?rnd (totalWeight ?cs)
        \<and> uniformBelow ?rnd (totalWeight ?cs) < totalWeight ?cs"
    using tw by simp
  ultimately have "\<exists>i<length ?cs. pickOne ?rnd ?cs = Some (?cs ! i)
               \<and> uniformBelow ?rnd (totalWeight ?cs) < runningWeight ?cs (Suc i)
               \<and> (\<forall>j<i. runningWeight ?cs (Suc j) \<le> uniformBelow ?rnd (totalWeight ?cs))"
    by (rule mp)
  then obtain i where i: "i < length ?cs" "pickOne ?rnd ?cs = Some (?cs ! i)"
     "uniformBelow ?rnd (totalWeight ?cs) < runningWeight ?cs (Suc i)"
    by (elim exE conjE)
  from i(1) have "i = 0 \<or> i = 1" by auto
  moreover have "\<not> 2 < runningWeight ?cs (Suc 0)" by (simp add: runningWeight_def nodeWith_def)
  ultimately have "i = 1" using i(3) by auto
  with i(2) show "pickOne ?rnd ?cs = Some (nodeWith ''b'' 3)" by simp
next
  let ?rnd = "\<lparr>uniformIndex = (\<lambda>n. 1), uniformBelow = (\<lambda>t. 0)\<rparr>"
  let ?cs = "[nodeWith ''a'' 0, nodeWith ''b'' 0]"
  have tw: "totalWeight ?cs = 0" by (simp add: totalWeight_def nodeWith_def)
  from weighted_selector [of ?cs ?rnd]
  have "totalWeight ?cs = 0 \<and> uniformIndex ?rnd (length ?cs) < length ?cs
        \<longrightarrow> pickOne ?rnd ?cs = Some (?cs ! uniformIndex ?rnd (length ?cs))"
    by (elim conjE)
  with tw show "pickOne ?rnd ?cs = Some (nodeWith ''b'' 0)" by simp
qed

end
